theory Spec2Isabelle
  imports Main
begin

section \<open>The auth commands of the Turso CLI (internal/cmd/auth.go)\<close>

text \<open>
  The commands \<open>login\<close>, \<open>logout\<close> and \<open>token\<close> talk to the settings store, to the
  remote API, to the operating system (listener, browser) and to the terminal. Each
  such call is an \<open>event\<close> of the trace a command returns together with its outcome;
  what the outside world answers is read from an environment record \<open>env\<close>.
\<close>

subsection \<open>Errors\<close>

text \<open>
  A Go \<open>error\<close>: one handed over by a library (\<open>Opaque\<close>), one made by
  \<open>fmt.Errorf\<close> from a plain message, or one wrapping another with the verb \<open>%w\<close>
  (the string is the text in front of the wrapped error).
\<close>

datatype error = Opaque string | Errorf string | Wrapf string error

subsection \<open>Events and outcomes\<close>

datatype client = Authenticated | Unauthenticated

datatype event =
    ReadSettings
  | HttpGet client string
  | Println string
  | Printf string
  | NetListen
  | GoServe int
  | OpenURL string
  | GoVersionProbe
  | RecvJwt string
  | SetToken string
  | Shutdown
  | RecvVersion string

text \<open>
  A command either returns (\<open>Return None\<close> is Go's \<open>return nil\<close>) or never does:
  \<open>login\<close> blocks on the receive from \<open>ch\<close> until a callback arrives, and
  \<open>server.Shutdown(context.Background())\<close> waits for the handlers still running.
\<close>

datatype outcome = Return "error option" | Hang

subsection \<open>HTTP values\<close>

record response =
  StatusCode :: nat
  Status :: string
  Body :: "error + string"

text \<open>
  A parsed URL, by what \<open>URL.String\<close> writes: \<open>Base\<close> is all it writes in front of the
  query (scheme, authority and path), \<open>RawQuery\<close> is the field of that name, and
  \<open>Fragment\<close> is the fragment in the escaped form \<open>String\<close> writes, the result of
  \<open>EscapedFragment()\<close>.
\<close>

record url =
  Base :: string
  RawQuery :: string
  Fragment :: string

type_synonym "values" = "string \<rightharpoonup> string list"

record request =
  Query :: "values"

text \<open>\<open>url.Values.Get\<close>: the first value stored under the key, the empty string when
  there is none.\<close>

definition values_Get :: "values \<Rightarrow> string \<Rightarrow> string" where
  "values_Get v key =
     (case v key of
        None \<Rightarrow> []
      | Some vs \<Rightarrow> (case vs of [] \<Rightarrow> [] | x # _ \<Rightarrow> x))"

text \<open>\<open>url.Values.Encode\<close> on keys given in sorted order, for keys and values that
  query escaping leaves as they are (letters, digits and the minus sign).\<close>

fun values_Encode :: "(string \<times> string list) list \<Rightarrow> string list" where
  "values_Encode [] = []"
| "values_Encode ((k, vs) # rest) = map (\<lambda>v. k @ ''='' @ v) vs @ values_Encode rest"

fun join_amp :: "string list \<Rightarrow> string" where
  "join_amp [] = []"
| "join_amp [x] = x"
| "join_amp (x # y # rest) = x @ ''&'' @ join_amp (y # rest)"

definition url_String :: "url \<Rightarrow> string" where
  "url_String u =
     Base u
     @ (if RawQuery u \<noteq> [] then ''?'' @ RawQuery u else [])
     @ (if Fragment u \<noteq> [] then ''#'' @ Fragment u else [])"

text \<open>\<open>strconv.Itoa\<close>.\<close>

fun utoa :: "nat \<Rightarrow> string" where
  "utoa n =
     (if n < 10 then [''0123456789'' ! n]
      else utoa (n div 10) @ [''0123456789'' ! (n mod 10)])"

declare utoa.simps [simp del]

definition Itoa :: "int \<Rightarrow> string" where
  "Itoa i = (if i < 0 then ''-'' @ utoa (nat (- i)) else utoa (nat i))"

subsection \<open>The environment\<close>

text \<open>
  What the calls the commands make return:
  \<^item> \<open>read_settings\<close>: \<open>settings.ReadSettings()\<close>, and on success the token
    \<open>GetToken()\<close> gives;
  \<^item> \<open>set_token\<close>: the error of \<open>settings.SetToken\<close>;
  \<^item> \<open>validate_token\<close>: \<open>createTursoClient().Get("/v2/validate/token", nil)\<close>;
  \<^item> \<open>releases_latest\<close>: \<open>createUnauthenticatedTursoClient().Get("/releases/latest", nil)\<close>;
  \<^item> \<open>json_latest\<close>: \<open>json.Unmarshal\<close> into the struct with the one field
    \<open>latest\<close>, giving that field;
  \<^item> \<open>parse_template\<close>: the error of parsing \<open>LOGIN_HTML\<close>;
  \<^item> \<open>net_listen\<close>: \<open>net.Listen("tcp", ":0")\<close>, on success the port of the listener;
  \<^item> \<open>host_url\<close>: \<open>url.Parse(getHost())\<close>;
  \<^item> \<open>open_url\<close>: the error of \<open>browser.OpenURL\<close>;
  \<^item> \<open>callbacks\<close>: the requests the callback server serves, in the order their handlers
    send on \<open>ch\<close>;
  \<^item> \<open>shutdown_returns\<close>: whether \<open>server.Shutdown\<close> returns;
  \<^item> \<open>version\<close>: the package variable with the running version;
  \<^item> \<open>emph\<close>: \<open>turso.Emph\<close>.
\<close>

record env =
  read_settings :: "error + string"
  set_token :: "string \<Rightarrow> error option"
  validate_token :: "error + response"
  releases_latest :: "error + response"
  json_latest :: "string \<Rightarrow> error + string"
  parse_template :: "error option"
  net_listen :: "error + int"
  host_url :: "error + url"
  open_url :: "string \<Rightarrow> error option"
  callbacks :: "request list"
  shutdown_returns :: bool
  version :: string
  emph :: "string \<Rightarrow> string"

definition nl :: string where
  "nl = [CHR 0x0A]"

text \<open>The check mark of the success messages, in UTF-8.\<close>

definition check_mark :: string where
  "check_mark = [CHR 0xE2, CHR 0x9C, CHR 0x94]"

subsection \<open>isJwtTokenValid\<close>

definition isJwtTokenValid :: "env \<Rightarrow> string \<Rightarrow> event list \<times> bool" where
  "isJwtTokenValid env token =
     (if length token = 0 then ([], False)
      else ([HttpGet Authenticated ''/v2/validate/token''],
            (case validate_token env of
               Inl err \<Rightarrow> False
             | Inr resp \<Rightarrow> StatusCode resp = 200)))"

subsection \<open>The token command\<close>

definition tokenCmd :: "env \<Rightarrow> event list \<times> outcome" where
  "tokenCmd env =
     (case read_settings env of
        Inl err \<Rightarrow>
          ([ReadSettings], Return (Some (Wrapf ''could not retrieve local config: '' err)))
      | Inr token \<Rightarrow>
          (case isJwtTokenValid env token of
             (t0, False) \<Rightarrow>
               ([ReadSettings] @ t0,
                Return (Some (Errorf
                  ''no user logged in. Run `turso auth login` to log in and get a token'')))
           | (t0, True) \<Rightarrow>
               ([ReadSettings] @ t0 @ [Println token], Return None)))"

subsection \<open>fetchLatestVersion and the goroutine that runs it\<close>

definition fetchLatestVersion :: "env \<Rightarrow> event list \<times> (error + string)" where
  "fetchLatestVersion env =
     ([HttpGet Unauthenticated ''/releases/latest''],
      (case releases_latest env of
         Inl err \<Rightarrow> Inl err
       | Inr resp \<Rightarrow>
           if StatusCode resp \<noteq> 200
           then Inl (Errorf (''error getting latest release: '' @ Status resp))
           else (case Body resp of
                   Inl err \<Rightarrow> Inl err
                 | Inr body \<Rightarrow>
                     (case json_latest env body of
                        Inl err \<Rightarrow> Inl err
                      | Inr v \<Rightarrow>
                          if length v = 0
                          then Inl (Errorf ''got empty version for latest release'')
                          else Inr v))))"

text \<open>The goroutine of \<open>login\<close>: its events, and the value it sends on
  \<open>versionChannel\<close>.\<close>

definition version_goroutine :: "env \<Rightarrow> event list \<times> string" where
  "version_goroutine env =
     (case fetchLatestVersion env of
        (t, Inl err) \<Rightarrow> (t, version env)
      | (t, Inr latestVersion) \<Rightarrow> (t, latestVersion))"

subsection \<open>beginAuth\<close>

definition auth_url :: "url \<Rightarrow> int \<Rightarrow> url" where
  "auth_url authUrl port =
     authUrl\<lparr>RawQuery :=
       join_amp (values_Encode [(''port'', [Itoa port]), (''redirect'', [''true''])])\<rparr>"

definition beginAuth :: "env \<Rightarrow> int \<Rightarrow> event list \<times> error option" where
  "beginAuth env port =
     (case host_url env of
        Inl err \<Rightarrow> ([], Some (Wrapf ''error parsing auth URL: '' err))
      | Inr authUrl \<Rightarrow>
          (let s = url_String (auth_url authUrl port) in
           case open_url env s of
             Some err \<Rightarrow>
               ([OpenURL s,
                 Printf (''Please open the following URL to login: '' @ emph env s @ nl)],
                None)
           | None \<Rightarrow> ([OpenURL s], None)))"

subsection \<open>The callback server\<close>

text \<open>
  What the handler registered by \<open>createCallbackServer\<close> does with a request, step by
  step: it sends the \<open>jwt\<close> parameter on the channel, writes the status and renders
  the page with the \<open>username\<close> parameter.
\<close>

datatype hstep = ChanSend string | WriteHeader nat | Execute string

definition handler :: "request \<Rightarrow> hstep list" where
  "handler r =
     (let q = Query r in
      [ChanSend (values_Get q ''jwt''), WriteHeader 200, Execute (values_Get q ''username'')])"

definition createCallbackServer :: "env \<Rightarrow> error + (request \<Rightarrow> hstep list)" where
  "createCallbackServer env =
     (case parse_template env of
        Some err \<Rightarrow> Inl (Wrapf ''could not parse login callback template: '' err)
      | None \<Rightarrow> Inr handler)"

definition runServer :: "env \<Rightarrow> event list \<times> (error + int)" where
  "runServer env =
     (case net_listen env of
        Inl err \<Rightarrow> ([NetListen], Inl (Wrapf ''could not allocate port for http server: '' err))
      | Inr port \<Rightarrow> ([NetListen, GoServe port], Inr port))"

text \<open>The values a handler run sends on the channel.\<close>

fun sends :: "hstep list \<Rightarrow> string list" where
  "sends [] = []"
| "sends (ChanSend v # rest) = v # sends rest"
| "sends (_ # rest) = sends rest"

subsection \<open>login\<close>

definition upgrade_notice :: "env \<Rightarrow> string \<Rightarrow> event list" where
  "upgrade_notice env latestVersion =
     [Printf (nl @ ''Friendly reminder that there's a newer version of ''
              @ emph env ''Turso CLI'' @ '' available.'' @ nl),
      Printf (''You're currently using version '' @ emph env (version env)
              @ '' while latest available version is '' @ emph env latestVersion
              @ ''.'' @ nl),
      Printf (''Please consider updating to get new features and more stable experience.''
              @ nl @ nl)]"

text \<open>
  The receive \<open>jwt := <-ch\<close> takes the value of the first send on \<open>ch\<close>: the one of the
  first request of \<open>callbacks\<close>. With no request it never returns.
\<close>

definition login :: "env \<Rightarrow> event list \<times> outcome" where
  "login env =
     (case read_settings env of
        Inl err \<Rightarrow>
          ([ReadSettings], Return (Some (Wrapf ''could not retrieve local config: '' err)))
      | Inr token \<Rightarrow>
     (case isJwtTokenValid env token of
        (t0, True) \<Rightarrow>
          ([ReadSettings] @ t0
             @ [Println (check_mark @ ''  Success! Existing JWT still valid'')],
           Return None)
      | (t0, False) \<Rightarrow>
     (let t1 = [ReadSettings] @ t0 @ [Println ''Waiting for authentication...''] in
      case createCallbackServer env of
        Inl err \<Rightarrow>
          (t1, Return (Some (Wrapf ''internal error. Cannot create callback: '' err)))
      | Inr server \<Rightarrow>
     (case runServer env of
        (t2, Inl err) \<Rightarrow>
          (t1 @ t2,
           Return (Some (Wrapf ''internal error. Cannot run authentication server: '' err)))
      | (t2, Inr port) \<Rightarrow>
     (case beginAuth env port of
        (t3, Some err) \<Rightarrow>
          (t1 @ t2 @ t3,
           Return (Some (Wrapf ''internal error. Cannot initiate auth flow: '' err)))
      | (t3, None) \<Rightarrow>
     (let t4 = t1 @ t2 @ t3 @ [GoVersionProbe] in
      case concat (map (\<lambda>r. sends (server r)) (callbacks env)) of
        [] \<Rightarrow> (t4, Hang)
      | jwt # _ \<Rightarrow>
     (let err = set_token env jwt;
          t5 = t4 @ [RecvJwt jwt, SetToken jwt, Shutdown] in
      if \<not> shutdown_returns env then (t5, Hang)
      else
     (case err of
        Some e \<Rightarrow>
          (t5, Return (Some (Wrapf ''error persisting token on local config: '' e)))
      | None \<Rightarrow>
     (let latestVersion = snd (version_goroutine env);
          t6 = t5 @ [RecvVersion latestVersion, Println (check_mark @ ''  Success!'')] in
      if version env \<noteq> latestVersion
      then (t6 @ upgrade_notice env latestVersion, Return None)
      else (t6, Return None))))))))))"

subsection \<open>logout\<close>

definition logout :: "env \<Rightarrow> event list \<times> outcome" where
  "logout env =
     (case read_settings env of
        Inl err \<Rightarrow>
          ([ReadSettings], Return (Some (Wrapf ''could not retrieve local config: '' err)))
      | Inr token \<Rightarrow>
          if length token = 0
          then ([ReadSettings, Println ''No user logged in.''], Return None)
          else ([ReadSettings, SetToken [], Println ''Logged out.''], Return None))"


section \<open>The callback server and the orchestrator as concurrent tasks\<close>

text \<open>
  The handlers of the callback server run in goroutines of their own, one per request,
  while \<open>login\<close> goes on. They meet at the channel \<open>ch := make(chan string, 1)\<close>:
  a send goes through when the buffer holds fewer values than its capacity and waits
  otherwise; a receive takes the oldest value and waits while there is none; a send on
  a closed channel panics (nothing in the file closes \<open>ch\<close>).
  \<open>server.Shutdown(context.Background())\<close> closes the listener first and then waits,
  without a deadline, until no handler is running.
\<close>

definition ch_cap :: nat where
  "ch_cap = 1"

text \<open>Where \<open>login\<close> stands, from the receive on: at \<open>jwt := <-ch\<close>, at
  \<open>settings.SetToken(jwt)\<close>, at the call of \<open>server.Shutdown\<close>, inside it, after it.\<close>

datatype orch = Receiving | Persisting string | ShuttingDown string | Draining string
  | Finished string

text \<open>
  \<open>chan\<close> is the buffer of \<open>ch\<close> and \<open>closed\<close> says whether \<open>ch\<close> was closed,
  \<open>handlers\<close> holds for every request served the steps its handler still has to take,
  \<open>listening\<close> says whether the listener accepts connections, \<open>panicked\<close> whether a
  handler has panicked. \<open>sent\<close> and \<open>delivered\<close> record the values sent on \<open>ch\<close> and
  the values \<open>login\<close> received from it so far.
\<close>

record sys =
  chan :: "string list"
  closed :: bool
  handlers :: "hstep list list"
  orch :: orch
  listening :: bool
  panicked :: bool
  sent :: "string list"
  delivered :: "string list"

definition init_sys :: sys where
  "init_sys =
     \<lparr>chan = [], closed = False, handlers = [], orch = Receiving, listening = True,
      panicked = False, sent = [], delivered = []\<rparr>"

text \<open>A request arrives, the handler of request \<open>i\<close> takes its next step, or \<open>login\<close>
  takes its next step.\<close>

datatype action = Hit request | Handler nat | Orch

definition handler_step :: "nat \<Rightarrow> sys \<Rightarrow> sys option" where
  "handler_step i s =
     (if i < length (handlers s) then
        (case handlers s ! i of
           [] \<Rightarrow> None
         | ChanSend v # rest \<Rightarrow>
             if closed s then Some (s\<lparr>panicked := True\<rparr>)
             else if length (chan s) < ch_cap
             then Some (s\<lparr>chan := chan s @ [v], handlers := (handlers s)[i := rest],
                          sent := sent s @ [v]\<rparr>)
             else None
         | _ # rest \<Rightarrow> Some (s\<lparr>handlers := (handlers s)[i := rest]\<rparr>))
      else None)"

definition orch_step :: "sys \<Rightarrow> sys option" where
  "orch_step s =
     (case orch s of
        Receiving \<Rightarrow>
          (case chan s of
             [] \<Rightarrow> None
           | v # rest \<Rightarrow>
               Some (s\<lparr>chan := rest, orch := Persisting v, delivered := delivered s @ [v]\<rparr>))
      | Persisting jwt \<Rightarrow> Some (s\<lparr>orch := ShuttingDown jwt\<rparr>)
      | ShuttingDown jwt \<Rightarrow> Some (s\<lparr>listening := False, orch := Draining jwt\<rparr>)
      | Draining jwt \<Rightarrow>
          if list_all (\<lambda>h. h = []) (handlers s) then Some (s\<lparr>orch := Finished jwt\<rparr>)
          else None
      | Finished jwt \<Rightarrow> None)"

fun step :: "action \<Rightarrow> sys \<Rightarrow> sys option" where
  "step (Hit r) s =
     (if listening s then Some (s\<lparr>handlers := handlers s @ [handler r]\<rparr>) else None)"
| "step (Handler i) s = handler_step i s"
| "step Orch s = orch_step s"

text \<open>A schedule is run action by action; \<open>None\<close> when one of them cannot be taken.\<close>

fun run :: "action list \<Rightarrow> sys \<Rightarrow> sys option" where
  "run [] s = Some s"
| "run (a # as) s = (case step a s of None \<Rightarrow> None | Some s' \<Rightarrow> run as s')"

text \<open>
  Nothing inside the program can move: \<open>login\<close> waits and so does every handler.
  It is a deadlock when some handler has not finished: no request that arrives later
  takes a value out of the channel.
\<close>

definition stuck :: "sys \<Rightarrow> bool" where
  "stuck s \<longleftrightarrow>
     orch_step s = None \<and> list_all (\<lambda>i. handler_step i s = None) [0..<length (handlers s)]"

definition deadlock :: "sys \<Rightarrow> bool" where
  "deadlock s \<longleftrightarrow> stuck s \<and> list_ex (\<lambda>h. h \<noteq> []) (handlers s)"

section \<open>Traces of login\<close>

text \<open>\<open>precedes a b tr\<close>: the trace has an \<open>a\<close> with a \<open>b\<close> somewhere after it.\<close>

fun precedes :: "'a \<Rightarrow> 'a \<Rightarrow> 'a list \<Rightarrow> bool" where
  "precedes a b [] = False"
| "precedes a b (x # xs) = ((x = a \<and> b \<in> set xs) \<or> precedes a b xs)"

text \<open>
  The run of \<open>login\<close> comes to the receive on \<open>ch\<close> when the settings are read, the
  stored token is not valid, the template parses, a port is bound and the host parses.
  Up to the creation of the server its trace is \<open>early_trace\<close>, up to the receive
  \<open>await_trace\<close>; \<open>after_receive\<close> is what follows the call of \<open>server.Shutdown\<close>.
\<close>

definition reaches_receive :: "env \<Rightarrow> string \<Rightarrow> int \<Rightarrow> bool" where
  "reaches_receive env token port \<longleftrightarrow>
     read_settings env = Inr token \<and> \<not> snd (isJwtTokenValid env token)
     \<and> parse_template env = None \<and> net_listen env = Inr port
     \<and> (\<exists>u. host_url env = Inr u)"

definition early_trace :: "env \<Rightarrow> string \<Rightarrow> event list" where
  "early_trace env token =
     [ReadSettings] @ fst (isJwtTokenValid env token) @ [Println ''Waiting for authentication...'']"

definition await_trace :: "env \<Rightarrow> string \<Rightarrow> int \<Rightarrow> event list" where
  "await_trace env token port =
     [ReadSettings] @ fst (isJwtTokenValid env token)
     @ [Println ''Waiting for authentication...'', NetListen, GoServe port]
     @ fst (beginAuth env port) @ [GoVersionProbe]"

definition after_receive :: "env \<Rightarrow> string \<Rightarrow> event list \<times> outcome" where
  "after_receive env jwt =
     (if \<not> shutdown_returns env then ([], Hang)
      else (case set_token env jwt of
              Some e \<Rightarrow> ([], Return (Some (Wrapf ''error persisting token on local config: '' e)))
            | None \<Rightarrow>
                ([RecvVersion (snd (version_goroutine env)), Println (check_mark @ ''  Success!'')]
                 @ (if version env \<noteq> snd (version_goroutine env)
                    then upgrade_notice env (snd (version_goroutine env)) else []),
                 Return None)))"

text \<open>The outcome of \<open>login\<close>, read off the environment.\<close>

definition login_outcome :: "env \<Rightarrow> outcome" where
  "login_outcome env =
     (case read_settings env of
        Inl err \<Rightarrow> Return (Some (Wrapf ''could not retrieve local config: '' err))
      | Inr token \<Rightarrow>
          if snd (isJwtTokenValid env token) then Return None
          else (case parse_template env of
                  Some err \<Rightarrow>
                    Return (Some (Wrapf ''internal error. Cannot create callback: ''
                      (Wrapf ''could not parse login callback template: '' err)))
                | None \<Rightarrow>
                    (case net_listen env of
                       Inl err \<Rightarrow>
                         Return (Some (Wrapf ''internal error. Cannot run authentication server: ''
                           (Wrapf ''could not allocate port for http server: '' err)))
                     | Inr port \<Rightarrow>
                         (case host_url env of
                            Inl err \<Rightarrow>
                              Return (Some (Wrapf ''internal error. Cannot initiate auth flow: ''
                                (Wrapf ''error parsing auth URL: '' err)))
                          | Inr u \<Rightarrow>
                              (case callbacks env of
                                 [] \<Rightarrow> Hang
                               | r # rs \<Rightarrow>
                                   snd (after_receive env (values_Get (Query r) ''jwt'')))))))"

section \<open>Invariant of the channel\<close>

text \<open>The sends the handlers still have to make.\<close>

fun pending :: "hstep list list \<Rightarrow> nat" where
  "pending [] = 0"
| "pending (h # hs) = length (sends h) + pending hs"

text \<open>The value \<open>login\<close> holds in \<open>jwt\<close>, if it has received one.\<close>

fun orch_values :: "orch \<Rightarrow> string list" where
  "orch_values Receiving = []"
| "orch_values (Persisting v) = [v]"
| "orch_values (ShuttingDown v) = [v]"
| "orch_values (Draining v) = [v]"
| "orch_values (Finished v) = [v]"

text \<open>
  Every value sent was received or is in the buffer, the buffer keeps to its capacity,
  \<open>login\<close> has received what it holds, every request served has sent or will send
  one value, the channel is open and no handler has panicked.
\<close>

definition chan_inv :: "sys \<Rightarrow> bool" where
  "chan_inv s \<longleftrightarrow>
     sent s = delivered s @ chan s \<and> length (chan s) \<le> ch_cap
     \<and> delivered s = orch_values (orch s)
     \<and> pending (handlers s) + length (sent s) = length (handlers s)
     \<and> \<not> closed s \<and> \<not> panicked s"

text \<open>
  The handler of request \<open>i\<close> is stranded: it stands at its send, the buffer is full,
  and \<open>login\<close> is past its only receive and has not left \<open>server.Shutdown\<close>.
\<close>

definition stranded :: "nat \<Rightarrow> sys \<Rightarrow> bool" where
  "stranded i s \<longleftrightarrow>
     i < length (handlers s)
     \<and> (case handlers s ! i of ChanSend v # rest \<Rightarrow> True | _ \<Rightarrow> False)
     \<and> length (chan s) = ch_cap \<and> \<not> closed s
     \<and> (case orch s of Receiving \<Rightarrow> False | Finished jwt \<Rightarrow> False | _ \<Rightarrow> True)"

section \<open>Example environments\<close>

definition example_request :: request where
  "example_request = \<lparr>Query = [''jwt'' \<mapsto> [''abc123''], ''username'' \<mapsto> [''alice'']]\<rparr>"

text \<open>The body \<open>{"latest":"v"}\<close> of an answer of \<open>/releases/latest\<close>.\<close>

definition json_body :: "string \<Rightarrow> string" where
  "json_body v =
     ''{'' @ [CHR 0x22] @ ''latest'' @ [CHR 0x22] @ '':'' @ [CHR 0x22] @ v @ [CHR 0x22] @ ''}''"

text \<open>
  Nobody is logged in, the site answers the browser's redirect with the token
  \<open>abc123\<close>, the settings can be written, and the latest release is the running one.
\<close>

definition example_env :: env where
  "example_env =
     \<lparr>read_settings = Inr [],
      set_token = (\<lambda>_. None),
      validate_token = Inl (Opaque ''connection refused''),
      releases_latest =
        Inr \<lparr>StatusCode = 200, Status = ''200 OK'', Body = Inr (json_body ''v0.5.0'')\<rparr>,
      json_latest = (\<lambda>body. if body = json_body ''v0.5.0'' then Inr ''v0.5.0''
                             else if body = json_body [] then Inr []
                             else Inl (Opaque ''invalid character'')),
      parse_template = None,
      net_listen = Inr 43210,
      host_url = Inr \<lparr>Base = ''https://api.turso.io'', RawQuery = [], Fragment = []\<rparr>,
      open_url = (\<lambda>_. None),
      callbacks = [example_request],
      shutdown_returns = True,
      version = ''v0.5.0'',
      emph = (\<lambda>s. s)\<rparr>"

text \<open>The host configured for the API does not parse as a URL.\<close>

definition bad_host_env :: env where
  "bad_host_env = example_env\<lparr>host_url := Inl (Opaque ''missing protocol scheme'')\<rparr>"

text \<open>A token is stored and the settings cannot be written.\<close>

definition readonly_env :: env where
  "readonly_env =
     example_env\<lparr>read_settings := Inr ''abc123'',
                 set_token := (\<lambda>_. Some (Opaque ''permission denied''))\<rparr>"

text \<open>A token is stored and the API accepts it.\<close>

definition logged_in_env :: env where
  "logged_in_env =
     example_env\<lparr>read_settings := Inr ''abc123'',
                 validate_token := Inr \<lparr>StatusCode = 200, Status = ''200 OK'', Body = Inr []\<rparr>\<rparr>"

text \<open>No browser can be opened.\<close>

definition headless_env :: env where
  "headless_env = example_env\<lparr>open_url := (\<lambda>_. Some (Opaque ''exec: xdg-open not found''))\<rparr>"





text \<open>The five ways the version probe fails: no connection, a status that is not 200, a
  body that cannot be read, a body that is not JSON, an empty \<open>latest\<close> field.\<close>

definition offline_env :: env where
  "offline_env = example_env\<lparr>releases_latest := Inl (Opaque ''no route to host'')\<rparr>"

definition unavailable_env :: env where
  "unavailable_env =
     example_env\<lparr>releases_latest :=
       Inr \<lparr>StatusCode = 503, Status = ''503 Service Unavailable'', Body = Inr []\<rparr>\<rparr>"

definition unreadable_env :: env where
  "unreadable_env =
     example_env\<lparr>releases_latest :=
       Inr \<lparr>StatusCode = 200, Status = ''200 OK'', Body = Inl (Opaque ''unexpected EOF'')\<rparr>\<rparr>"

definition malformed_env :: env where
  "malformed_env =
     example_env\<lparr>releases_latest :=
       Inr \<lparr>StatusCode = 200, Status = ''200 OK'', Body = Inr ''<html>''\<rparr>\<rparr>"

definition empty_latest_env :: env where
  "empty_latest_env =
     example_env\<lparr>releases_latest :=
       Inr \<lparr>StatusCode = 200, Status = ''200 OK'', Body = Inr (json_body [])\<rparr>\<rparr>"

text \<open>
  Schedules of the callback server and \<open>login\<close>: one request that has just arrived; two
  requests, both served before \<open>login\<close> leaves \<open>server.Shutdown\<close>; three requests that
  arrive before the listener is closed.
\<close>

definition one_hit :: "action list" where
  "one_hit = [Hit example_request]"

definition two_hits :: "action list" where
  "two_hits =
     [Hit example_request, Handler 0, Orch, Hit example_request, Handler 1, Orch, Orch,
      Handler 0, Handler 0, Handler 1, Handler 1, Orch]"

definition three_hits :: "action list" where
  "three_hits =
     [Hit example_request, Handler 0, Orch, Hit example_request, Handler 1,
      Hit example_request, Orch, Orch, Handler 0, Handler 0, Handler 1, Handler 1]"

text \<open>The states these schedules lead to.\<close>

definition after_one_hit :: sys where
  "after_one_hit =
     \<lparr>chan = [], closed = False,
      handlers = [[ChanSend ''abc123'', WriteHeader 200, Execute ''alice'']],
      orch = Receiving, listening = True, panicked = False, sent = [], delivered = []\<rparr>"

definition after_two_hits :: sys where
  "after_two_hits =
     \<lparr>chan = [''abc123''], closed = False, handlers = [[], []],
      orch = Finished ''abc123'', listening = False, panicked = False,
      sent = [''abc123'', ''abc123''], delivered = [''abc123'']\<rparr>"

definition after_three_hits :: sys where
  "after_three_hits =
     \<lparr>chan = [''abc123''], closed = False,
      handlers = [[], [], [ChanSend ''abc123'', WriteHeader 200, Execute ''alice'']],
      orch = Draining ''abc123'', listening = False, panicked = False,
      sent = [''abc123'', ''abc123''], delivered = [''abc123'']\<rparr>"

section \<open>The paths of login\<close>

lemma sends_handler: "sends (handler r) = [values_Get (Query r) ''jwt'']"
  by (simp add: handler_def Let_def)

lemma concat_sends_handler:
  "concat (map (\<lambda>r. sends (handler r)) rs) = map (\<lambda>r. values_Get (Query r) ''jwt'') rs"
  by (induction rs) (simp_all add: sends_handler)

lemma beginAuth_ok: "host_url env = Inr u \<Longrightarrow> snd (beginAuth env port) = None"
  by (simp add: beginAuth_def Let_def split: option.split)

lemma login_callback_path:
  assumes "reaches_receive env token port"
  shows "login env =
     (case callbacks env of
        [] \<Rightarrow> (await_trace env token port, Hang)
      | r # rs \<Rightarrow>
          (let jwt = values_Get (Query r) ''jwt'' in
           (await_trace env token port @ [RecvJwt jwt, SetToken jwt, Shutdown]
              @ fst (after_receive env jwt),
            snd (after_receive env jwt))))"
proof -
  from assms obtain u where rs: "read_settings env = Inr token"
    and nv: "\<not> snd (isJwtTokenValid env token)"
    and pt: "parse_template env = None" and nl: "net_listen env = Inr port"
    and hu: "host_url env = Inr u"
    by (auto simp: reaches_receive_def)
  obtain t0 where v: "isJwtTokenValid env token = (t0, False)"
    using nv by (cases "isJwtTokenValid env token") auto
  obtain t3 where b: "beginAuth env port = (t3, None)"
    using beginAuth_ok [OF hu, of port] by (cases "beginAuth env port") auto
  have cs: "createCallbackServer env = Inr handler"
    by (simp add: createCallbackServer_def pt)
  have rn: "runServer env = ([NetListen, GoServe port], Inr port)"
    by (simp add: runServer_def nl)
  show ?thesis
    unfolding login_def
    by (simp add: rs v b cs rn concat_sends_handler await_trace_def after_receive_def Let_def
        split: list.split option.split)
qed

lemma login_paths:
  obtains
    (ReadFail) err where "read_settings env = Inl err"
      and "login env =
             ([ReadSettings], Return (Some (Wrapf ''could not retrieve local config: '' err)))"
  | (StillValid) token where "read_settings env = Inr token"
      and "snd (isJwtTokenValid env token)"
      and "login env =
             ([ReadSettings] @ fst (isJwtTokenValid env token)
                @ [Println (check_mark @ ''  Success! Existing JWT still valid'')], Return None)"
  | (TemplateFail) token err where "read_settings env = Inr token"
      and "\<not> snd (isJwtTokenValid env token)" and "parse_template env = Some err"
      and "login env =
             (early_trace env token,
              Return (Some (Wrapf ''internal error. Cannot create callback: ''
                (Wrapf ''could not parse login callback template: '' err))))"
  | (ListenFail) token err where "read_settings env = Inr token"
      and "\<not> snd (isJwtTokenValid env token)" and "parse_template env = None"
      and "net_listen env = Inl err"
      and "login env =
             (early_trace env token @ [NetListen],
              Return (Some (Wrapf ''internal error. Cannot run authentication server: ''
                (Wrapf ''could not allocate port for http server: '' err))))"
  | (HostFail) token port err where "read_settings env = Inr token"
      and "\<not> snd (isJwtTokenValid env token)" and "parse_template env = None"
      and "net_listen env = Inr port" and "host_url env = Inl err"
      and "login env =
             (early_trace env token @ [NetListen, GoServe port],
              Return (Some (Wrapf ''internal error. Cannot initiate auth flow: ''
                (Wrapf ''error parsing auth URL: '' err))))"
  | (Callback) token port where "reaches_receive env token port"
proof (cases "read_settings env")
  case (Inl err)
  then have "login env =
      ([ReadSettings], Return (Some (Wrapf ''could not retrieve local config: '' err)))"
    by (simp add: login_def)
  with Inl show ?thesis by (rule ReadFail)
next
  case (Inr token)
  obtain t0 b where v: "isJwtTokenValid env token = (t0, b)"
    by (cases "isJwtTokenValid env token")
  show ?thesis
  proof (cases b)
    case True
    with Inr v have "login env =
        ([ReadSettings] @ fst (isJwtTokenValid env token)
           @ [Println (check_mark @ ''  Success! Existing JWT still valid'')], Return None)"
      by (simp add: login_def)
    moreover from True v have "snd (isJwtTokenValid env token)" by simp
    ultimately show ?thesis using Inr by (intro StillValid)
  next
    case False
    with v have nv: "\<not> snd (isJwtTokenValid env token)" by simp
    from False v have v': "isJwtTokenValid env token = (t0, False)" by simp
    show ?thesis
    proof (cases "parse_template env")
      case (Some err)
      then have "createCallbackServer env =
          Inl (Wrapf ''could not parse login callback template: '' err)"
        by (simp add: createCallbackServer_def)
      with Inr v' have "login env =
          (early_trace env token,
           Return (Some (Wrapf ''internal error. Cannot create callback: ''
             (Wrapf ''could not parse login callback template: '' err))))"
        by (simp add: login_def early_trace_def Let_def)
      with Inr nv Some show ?thesis by (intro TemplateFail)
    next
      case None
      then have cs: "createCallbackServer env = Inr handler"
        by (simp add: createCallbackServer_def)
      show ?thesis
      proof (cases "net_listen env")
        case (Inl err)
        then have "runServer env =
            ([NetListen], Inl (Wrapf ''could not allocate port for http server: '' err))"
          by (simp add: runServer_def)
        with Inr v' cs have "login env =
            (early_trace env token @ [NetListen],
             Return (Some (Wrapf ''internal error. Cannot run authentication server: ''
               (Wrapf ''could not allocate port for http server: '' err))))"
          by (simp add: login_def early_trace_def Let_def)
        with Inr nv None Inl show ?thesis by (intro ListenFail)
      next
        case port: (Inr port)
        then have rn: "runServer env = ([NetListen, GoServe port], Inr port)"
          by (simp add: runServer_def)
        show ?thesis
        proof (cases "host_url env")
          case (Inl err)
          then have "beginAuth env port = ([], Some (Wrapf ''error parsing auth URL: '' err))"
            by (simp add: beginAuth_def)
          with Inr v' cs rn have "login env =
              (early_trace env token @ [NetListen, GoServe port],
               Return (Some (Wrapf ''internal error. Cannot initiate auth flow: ''
                 (Wrapf ''error parsing auth URL: '' err))))"
            by (simp add: login_def early_trace_def Let_def)
          with Inr nv None port Inl show ?thesis by (intro HostFail)
        next
          case u: (Inr u)
          with Inr nv None port have "reaches_receive env token port"
            by (simp add: reaches_receive_def)
          then show ?thesis by (rule Callback)
        qed
      qed
    qed
  qed
qed

lemma precedes_append:
  "precedes a b (xs @ ys) \<longleftrightarrow> precedes a b xs \<or> (a \<in> set xs \<and> b \<in> set ys) \<or> precedes a b ys"
  by (induction xs) auto

lemma precedes_mem: "precedes a b xs \<Longrightarrow> a \<in> set xs \<and> b \<in> set xs"
  by (induction xs) auto

lemma isJwtTokenValid_events:
  "e \<in> set (fst (isJwtTokenValid env token)) \<Longrightarrow> e = HttpGet Authenticated ''/v2/validate/token''"
  by (simp add: isJwtTokenValid_def split: if_splits)

lemma isJwtTokenValid_request:
  "e \<in> set (fst (isJwtTokenValid env token)) \<Longrightarrow> token \<noteq> []"
  by (auto simp add: isJwtTokenValid_def split: if_splits)

lemma beginAuth_events:
  "e \<in> set (fst (beginAuth env port)) \<Longrightarrow> (\<exists>s. e = OpenURL s) \<or> (\<exists>s. e = Printf s)"
  by (auto simp add: beginAuth_def Let_def split: sum.splits option.splits)

lemma early_trace_events:
  "e \<in> set (early_trace env token) \<Longrightarrow>
     e = ReadSettings \<or> e = HttpGet Authenticated ''/v2/validate/token''
     \<or> e = Println ''Waiting for authentication...''"
  unfolding early_trace_def by (auto dest: isJwtTokenValid_events)

lemma await_trace_eq:
  "await_trace env token port =
     early_trace env token @ [NetListen, GoServe port] @ fst (beginAuth env port) @ [GoVersionProbe]"
  by (simp add: await_trace_def early_trace_def)

lemma await_trace_events:
  "e \<in> set (await_trace env token port) \<Longrightarrow>
     e = ReadSettings \<or> e = HttpGet Authenticated ''/v2/validate/token''
     \<or> e = Println ''Waiting for authentication...'' \<or> e = NetListen \<or> e = GoServe port
     \<or> e = GoVersionProbe \<or> (\<exists>s. e = OpenURL s) \<or> (\<exists>s. e = Printf s)"
  unfolding await_trace_eq by (auto dest: early_trace_events beginAuth_events)

lemma after_receive_events:
  "e \<in> set (fst (after_receive env jwt)) \<Longrightarrow>
     (\<exists>v. e = RecvVersion v) \<or> (\<exists>s. e = Println s) \<or> (\<exists>s. e = Printf s)"
  by (auto simp add: after_receive_def upgrade_notice_def split: if_splits option.splits)

lemma login_callback_trace:
  assumes "reaches_receive env token port" and "callbacks env = r # rs"
  shows "fst (login env) =
           await_trace env token port
           @ [RecvJwt (values_Get (Query r) ''jwt''), SetToken (values_Get (Query r) ''jwt''),
              Shutdown]
           @ fst (after_receive env (values_Get (Query r) ''jwt''))"
    and "snd (login env) = snd (after_receive env (values_Get (Query r) ''jwt''))"
  using login_callback_path [OF assms(1)] assms(2) by (simp_all add: Let_def)

lemma login_waiting_trace:
  assumes "reaches_receive env token port" and "callbacks env = []"
  shows "login env = (await_trace env token port, Hang)"
  using login_callback_path [OF assms(1)] assms(2) by simp

lemma login_reaches_receive_iff:
  "GoVersionProbe \<in> set (fst (login env)) \<longleftrightarrow> (\<exists>token port. reaches_receive env token port)"
proof
  assume g: "GoVersionProbe \<in> set (fst (login env))"
  show "\<exists>token port. reaches_receive env token port"
  proof (cases env rule: login_paths)
    case (Callback token port)
    then show ?thesis by blast
  qed (use g in \<open>auto dest: early_trace_events isJwtTokenValid_events\<close>)
next
  assume "\<exists>token port. reaches_receive env token port"
  then obtain token port where r: "reaches_receive env token port" by blast
  have "GoVersionProbe \<in> set (await_trace env token port)"
    by (simp add: await_trace_def)
  then show "GoVersionProbe \<in> set (fst (login env))"
    using login_callback_path [OF r] by (cases "callbacks env") (simp_all add: Let_def)
qed

lemma await_trace_HttpGet:
  "HttpGet c p \<in> set (await_trace env token port) \<Longrightarrow>
     token \<noteq> [] \<and> c = Authenticated \<and> p = ''/v2/validate/token''"
  unfolding await_trace_def
  by (auto dest: isJwtTokenValid_request isJwtTokenValid_events beginAuth_events)

lemma early_trace_HttpGet:
  "HttpGet c p \<in> set (early_trace env token) \<Longrightarrow>
     token \<noteq> [] \<and> c = Authenticated \<and> p = ''/v2/validate/token''"
  unfolding early_trace_def
  by (auto dest: isJwtTokenValid_request isJwtTokenValid_events)

lemma login_HttpGet:
  assumes "HttpGet c p \<in> set (fst (login env))"
  shows "\<exists>token. read_settings env = Inr token \<and> token \<noteq> []
           \<and> c = Authenticated \<and> p = ''/v2/validate/token''"
proof (cases env rule: login_paths)
  case (Callback token port)
  then have rs: "read_settings env = Inr token"
    by (simp add: reaches_receive_def)
  have "HttpGet c p \<in> set (await_trace env token port)"
  proof (cases "callbacks env")
    case Nil
    with Callback assms show ?thesis by (simp add: login_waiting_trace)
  next
    case (Cons req rs)
    have "HttpGet c p \<notin> set (fst (after_receive env (values_Get (Query req) ''jwt'')))"
      by (auto dest: after_receive_events)
    with assms show ?thesis
      by (simp add: login_callback_trace [OF Callback Cons])
  qed
  with rs show ?thesis by (auto dest: await_trace_HttpGet)
qed (use assms in \<open>auto dest: early_trace_HttpGet isJwtTokenValid_request isJwtTokenValid_events\<close>)

lemma version_goroutine_events:
  "fst (version_goroutine env) = [HttpGet Unauthenticated ''/releases/latest'']"
  by (simp add: version_goroutine_def fetchLatestVersion_def split: sum.split)

lemma snd_login: "snd (login env) = login_outcome env"
proof (cases env rule: login_paths)
  case (Callback token port)
  then obtain u where "read_settings env = Inr token" "\<not> snd (isJwtTokenValid env token)"
    "parse_template env = None" "net_listen env = Inr port" "host_url env = Inr u"
    by (auto simp add: reaches_receive_def)
  then show ?thesis
    using login_callback_path [OF Callback]
    by (simp add: login_outcome_def Let_def split: list.split)
qed (simp_all add: login_outcome_def)

lemma login_probe_independent:
  "snd (login (env\<lparr>releases_latest := rl, json_latest := jl\<rparr>)) = snd (login env)"
proof -
  let ?env' = "env\<lparr>releases_latest := rl, json_latest := jl\<rparr>"
  have v: "isJwtTokenValid ?env' token = isJwtTokenValid env token" for token
    by (simp add: isJwtTokenValid_def)
  have a: "snd (after_receive ?env' jwt) = snd (after_receive env jwt)" for jwt
    by (simp add: after_receive_def split: option.split)
  have "login_outcome ?env' = login_outcome env"
    unfolding login_outcome_def v a
    by (simp cong: if_cong sum.case_cong option.case_cong list.case_cong)
  then show ?thesis by (simp only: snd_login)
qed

lemma upgrade_notice_not_await:
  "e \<in> set (upgrade_notice env v) \<Longrightarrow> e \<notin> set (await_trace env' token port)"
  by (auto simp add: upgrade_notice_def await_trace_def beginAuth_def Let_def nl_def
      dest!: isJwtTokenValid_events split: sum.splits option.splits)

lemma login_not_auth_flow_error:
  assumes "GoVersionProbe \<in> set (fst (login env))"
  shows "snd (login env) \<noteq> Return (Some (Wrapf ''internal error. Cannot initiate auth flow: '' x))"
proof -
  from assms obtain token port where r: "reaches_receive env token port"
    using login_reaches_receive_iff by blast
  show ?thesis
  proof (cases "callbacks env")
    case Nil
    with r show ?thesis by (simp add: login_waiting_trace)
  next
    case (Cons req rs)
    show ?thesis
      by (simp add: login_callback_trace [OF r Cons] after_receive_def split: option.split)
  qed
qed

lemma auth_url_String:
  "url_String (auth_url u port) =
     Base u @ ''?port='' @ Itoa port @ ''&redirect=true''
     @ (if Fragment u \<noteq> [] then ''#'' @ Fragment u else [])"
  by (simp add: url_String_def auth_url_def)

text \<open>\<open>fetchLatestVersion\<close> returns an error in five cases, and in no other.\<close>

lemma fetchLatestVersion_error_iff:
  "(\<exists>e. snd (fetchLatestVersion env) = Inl e) \<longleftrightarrow>
     (\<exists>e. releases_latest env = Inl e)
     \<or> (\<exists>resp. releases_latest env = Inr resp \<and> StatusCode resp \<noteq> 200)
     \<or> (\<exists>resp e. releases_latest env = Inr resp \<and> Body resp = Inl e)
     \<or> (\<exists>resp body e. releases_latest env = Inr resp \<and> Body resp = Inr body
           \<and> json_latest env body = Inl e)
     \<or> (\<exists>resp body. releases_latest env = Inr resp \<and> Body resp = Inr body
           \<and> json_latest env body = Inr [])"
  by (auto simp add: fetchLatestVersion_def split: sum.splits if_splits)

text \<open>What \<open>login\<close> prints before the receive.\<close>

lemma beginAuth_Printf:
  assumes "Printf s \<in> set (fst (beginAuth env port))"
  shows "\<exists>u. s = ''Please open the following URL to login: '' @ emph env u @ nl"
proof (cases "host_url env")
  case (Inl err)
  with assms show ?thesis by (simp add: beginAuth_def)
next
  case (Inr authUrl)
  show ?thesis
  proof (cases "open_url env (url_String (auth_url authUrl port))")
    case None
    with Inr assms show ?thesis by (simp add: beginAuth_def Let_def)
  next
    case (Some err)
    with Inr assms have "s = ''Please open the following URL to login: ''
        @ emph env (url_String (auth_url authUrl port)) @ nl"
      by (simp add: beginAuth_def Let_def)
    then show ?thesis ..
  qed
qed

lemma beginAuth_Println: "Println s \<notin> set (fst (beginAuth env port))"
  by (auto dest: beginAuth_events)

lemma await_trace_Println:
  "Println s \<in> set (await_trace env token port) \<Longrightarrow> s = ''Waiting for authentication...''"
  unfolding await_trace_def
  by (auto dest: isJwtTokenValid_events simp add: beginAuth_Println)

lemma await_trace_Printf:
  assumes "Printf s \<in> set (await_trace env token port)"
  shows "\<exists>u. s = ''Please open the following URL to login: '' @ emph env u @ nl"
proof -
  from assms have "Printf s \<in> set (fst (isJwtTokenValid env token))
      \<or> Printf s \<in> set (fst (beginAuth env port))"
    by (simp add: await_trace_def)
  then have "Printf s \<in> set (fst (beginAuth env port))"
    by (auto dest: isJwtTokenValid_events)
  then show ?thesis by (rule beginAuth_Printf)
qed

section \<open>The example runs\<close>

lemmas eval_defs = login_def isJwtTokenValid_def createCallbackServer_def runServer_def
  beginAuth_def Let_def example_env_def example_request_def version_goroutine_def
  fetchLatestVersion_def handler_def values_Get_def auth_url_def url_String_def Itoa_def
  utoa.simps upgrade_notice_def logout_def tokenCmd_def json_body_def

lemma login_example:
  "login example_env =
     ([ReadSettings, Println ''Waiting for authentication...'', NetListen, GoServe 43210,
       OpenURL ''https://api.turso.io?port=43210&redirect=true'', GoVersionProbe,
       RecvJwt ''abc123'', SetToken ''abc123'', Shutdown, RecvVersion ''v0.5.0'',
       Println (check_mark @ ''  Success!'')], Return None)"
  by (simp add: eval_defs)

lemma login_headless:
  "login headless_env =
     ([ReadSettings, Println ''Waiting for authentication...'', NetListen, GoServe 43210,
       OpenURL ''https://api.turso.io?port=43210&redirect=true'',
       Printf (''Please open the following URL to login: ''
               @ ''https://api.turso.io?port=43210&redirect=true'' @ nl),
       GoVersionProbe,
       RecvJwt ''abc123'', SetToken ''abc123'', Shutdown, RecvVersion ''v0.5.0'',
       Println (check_mark @ ''  Success!'')], Return None)"
  by (simp add: headless_env_def eval_defs)



section \<open>The channel invariant holds in every reachable state\<close>

lemma pending_append: "pending (hs @ hs') = pending hs + pending hs'"
  by (induction hs) simp_all

lemma pending_update:
  "i < length hs \<Longrightarrow> hs ! i = x # rest \<Longrightarrow>
     pending (hs[i := rest]) + length (sends [x]) = pending hs"
proof (induction hs arbitrary: i)
  case Nil
  then show ?case by simp
next
  case (Cons h hs)
  show ?case
  proof (cases i)
    case 0
    with Cons.prems show ?thesis by (cases x) simp_all
  next
    case (Suc j)
    with Cons.prems Cons.IH [of j] show ?thesis by simp
  qed
qed

lemma pending_ge:
  "i < length hs \<Longrightarrow> length (sends (hs ! i)) \<le> pending hs"
proof (induction hs arbitrary: i)
  case Nil
  then show ?case by simp
next
  case (Cons h hs)
  then show ?case by (cases i) (simp_all add: le_SucI trans_le_add2)
qed

lemma chan_inv_init: "chan_inv init_sys"
  by (simp add: chan_inv_def init_sys_def)

lemma chan_inv_hit:
  assumes "chan_inv s" and "step (Hit r) s = Some s'"
  shows "chan_inv s'"
  using assms
  by (auto simp add: chan_inv_def pending_append sends_handler split: if_splits)

lemma chan_inv_handler:
  assumes "chan_inv s" and "handler_step i s = Some s'"
  shows "chan_inv s'"
proof -
  from assms(2) have i: "i < length (handlers s)"
    by (simp add: handler_step_def split: if_splits)
  from assms(2) i obtain x rest where h: "handlers s ! i = x # rest"
    by (cases "handlers s ! i") (simp_all add: handler_step_def)
  note p = pending_update [OF i h]
  show ?thesis
  proof (cases x)
    case (ChanSend v)
    from assms(1) have o: "\<not> closed s"
      unfolding chan_inv_def by blast
    with assms(2) i h ChanSend have c: "length (chan s) < ch_cap"
      and s': "s' = s\<lparr>chan := chan s @ [v], handlers := (handlers s)[i := rest],
                       sent := sent s @ [v]\<rparr>"
      by (simp_all add: handler_step_def split: if_splits)
    from c have "chan s = []" by (simp add: ch_cap_def)
    with assms(1) p show ?thesis
      by (auto simp add: chan_inv_def s' ChanSend ch_cap_def)
  next
    case (WriteHeader n)
    with assms(2) i h have "s' = s\<lparr>handlers := (handlers s)[i := rest]\<rparr>"
      by (simp add: handler_step_def)
    with assms(1) p show ?thesis
      by (auto simp add: chan_inv_def WriteHeader)
  next
    case (Execute u)
    with assms(2) i h have "s' = s\<lparr>handlers := (handlers s)[i := rest]\<rparr>"
      by (simp add: handler_step_def)
    with assms(1) p show ?thesis
      by (auto simp add: chan_inv_def Execute)
  qed
qed

lemma chan_inv_orch:
  assumes "chan_inv s" and "orch_step s = Some s'"
  shows "chan_inv s'"
proof (cases "orch s")
  case Receiving
  with assms(2) obtain v rest where c: "chan s = v # rest"
    and s': "s' = s\<lparr>chan := rest, orch := Persisting v, delivered := delivered s @ [v]\<rparr>"
    by (cases "chan s") (simp_all add: orch_step_def)
  with assms(1) Receiving show ?thesis
    by (auto simp add: chan_inv_def ch_cap_def)
next
  case (Draining v)
  with assms show ?thesis
    by (auto simp add: chan_inv_def orch_step_def split: if_splits)
qed (use assms in \<open>auto simp add: chan_inv_def orch_step_def\<close>)

lemma chan_inv_step:
  "chan_inv s \<Longrightarrow> step a s = Some s' \<Longrightarrow> chan_inv s'"
  by (cases a) (auto intro: chan_inv_hit chan_inv_handler chan_inv_orch)

lemma chan_inv_run:
  "chan_inv s \<Longrightarrow> run sched s = Some s' \<Longrightarrow> chan_inv s'"
proof (induction sched arbitrary: s)
  case Nil
  then show ?case by simp
next
  case (Cons a sched)
  then show ?case
    by (auto split: option.splits dest: chan_inv_step)
qed

lemma reachable_inv: "run sched init_sys = Some s \<Longrightarrow> chan_inv s"
  using chan_inv_init by (rule chan_inv_run)

lemma first_send_free:
  assumes "chan_inv s" and "sent s = []" and "i < length (handlers s)"
    and "handlers s ! i \<noteq> []"
  shows "\<exists>s'. handler_step i s = Some s'"
proof -
  from assms(1,2) have "chan s = []" "\<not> closed s" by (simp_all add: chan_inv_def)
  with assms(3,4) show ?thesis
    by (cases "handlers s ! i"; cases "hd (handlers s ! i)")
       (simp_all add: handler_step_def ch_cap_def)
qed

lemma deadlock_three_hits:
  assumes "chan_inv s" and "deadlock s"
  shows "3 \<le> length (handlers s)"
proof -
  from assms(2) obtain i where i: "i < length (handlers s)" and ne: "handlers s ! i \<noteq> []"
    by (auto simp add: deadlock_def list_ex_iff in_set_conv_nth)
  from assms(2) i have blocked: "handler_step i s = None" and o: "orch_step s = None"
    by (auto simp add: deadlock_def stuck_def list_all_iff)
  from ne obtain x rest where h: "handlers s ! i = x # rest"
    by (cases "handlers s ! i") auto
  from blocked i h obtain v where x: "x = ChanSend v" and full: "\<not> length (chan s) < ch_cap"
    by (cases x) (auto simp add: handler_step_def split: if_splits)
  from full have c: "chan s \<noteq> []" by (auto simp add: ch_cap_def)
  with o have "orch s \<noteq> Receiving"
    by (cases "chan s") (auto simp add: orch_step_def)
  with assms(1) have "length (delivered s) = 1"
    by (cases "orch s") (simp_all add: chan_inv_def)
  with assms(1) c have two: "2 \<le> length (sent s)"
    by (cases "chan s") (simp_all add: chan_inv_def)
  from pending_ge [OF i] h x have "1 \<le> pending (handlers s)" by simp
  moreover from assms(1) have "pending (handlers s) + length (sent s) = length (handlers s)"
    unfolding chan_inv_def by blast
  ultimately show ?thesis using two by linarith
qed

text \<open>A stranded handler stays stranded, whatever happens next.\<close>

lemma stranded_blocked: "stranded i s \<Longrightarrow> handler_step i s = None"
  by (auto simp add: stranded_def handler_step_def split: list.splits hstep.splits)

lemma stranded_handler:
  assumes "stranded i s" and "handler_step j s = Some s'"
  shows "stranded i s'"
proof -
  from assms have ne: "j \<noteq> i"
    using stranded_blocked by fastforce
  from assms(2) have j: "j < length (handlers s)"
    by (simp add: handler_step_def split: if_splits)
  from assms(1) have full: "length (chan s) = ch_cap" "\<not> closed s"
    by (simp_all add: stranded_def)
  with assms(2) j obtain rest where "s' = s\<lparr>handlers := (handlers s)[j := rest]\<rparr>"
    by (auto simp add: handler_step_def split: list.splits hstep.splits)
  with assms(1) ne show ?thesis
    by (simp add: stranded_def)
qed

lemma stranded_orch:
  assumes "stranded i s" and "orch_step s = Some s'"
  shows "stranded i s'"
proof (cases "orch s")
  case (Draining jwt)
  from assms(1) have "handlers s ! i \<in> set (handlers s)" "handlers s ! i \<noteq> []"
    by (auto simp add: stranded_def split: list.splits)
  then have "\<not> list_all (\<lambda>h. h = []) (handlers s)"
    by (auto simp add: list_all_iff)
  with assms(2) Draining show ?thesis
    by (simp add: orch_step_def)
qed (use assms in \<open>auto simp add: stranded_def orch_step_def\<close>)

lemma stranded_step:
  assumes "stranded i s" and "step a s = Some s'"
  shows "stranded i s'"
proof (cases a)
  case (Hit r)
  with assms show ?thesis
    by (auto simp add: stranded_def nth_append split: if_splits)
next
  case (Handler j)
  with assms show ?thesis by (auto intro: stranded_handler)
next
  case Orch
  with assms show ?thesis by (auto intro: stranded_orch)
qed

lemma stranded_run:
  "stranded i s \<Longrightarrow> run sched s = Some s' \<Longrightarrow> stranded i s'"
proof (induction sched arbitrary: s)
  case Nil
  then show ?case by simp
next
  case (Cons a sched)
  then show ?case by (auto split: option.splits dest: stranded_step)
qed

lemmas sys_defs = init_sys_def handler_step_def orch_step_def ch_cap_def handler_def
  values_Get_def example_request_def Let_def

lemma run_one_hit: "run one_hit init_sys = Some after_one_hit"
  by (simp add: one_hit_def after_one_hit_def sys_defs)

lemma run_two_hits: "run two_hits init_sys = Some after_two_hits"
  by (simp add: two_hits_def after_two_hits_def sys_defs)

lemma run_three_hits: "run three_hits init_sys = Some after_three_hits"
  by (simp add: three_hits_def after_three_hits_def sys_defs)

section \<open>Persisting and shutting down\<close>

text \<open>
  Claim C1, as the code has it: in every run of \<open>login\<close> that returns and has written the
  received credential to the settings, the write \<open>settings.SetToken(jwt)\<close> comes before
  the shutdown of the callback server, never after it, and the server is shut down
  exactly once, whether the write succeeded or failed (\<open>r\<close> is any return value).
\<close>

theorem login_persist_before_shutdown:
  assumes "snd (login env) = Return r" and "SetToken jwt \<in> set (fst (login env))"
  shows "precedes (SetToken jwt) Shutdown (fst (login env))
         \<and> \<not> precedes Shutdown (SetToken jwt) (fst (login env))
         \<and> count_list (fst (login env)) Shutdown = 1"
proof (cases env rule: login_paths)
  case (Callback token port)
  show ?thesis
  proof (cases "callbacks env")
    case Nil
    with Callback assms(1) show ?thesis by (simp add: login_waiting_trace)
  next
    case (Cons req rs)
    let ?j = "values_Get (Query req) ''jwt''"
    let ?pre = "await_trace env token port" and ?post = "fst (after_receive env ?j)"
    have tr: "fst (login env) = ?pre @ [RecvJwt ?j, SetToken ?j, Shutdown] @ ?post"
      by (rule login_callback_trace [OF Callback Cons])
    have pre: "Shutdown \<notin> set ?pre" "\<And>j. SetToken j \<notin> set ?pre"
      by (auto dest: await_trace_events)
    have post: "Shutdown \<notin> set ?post" "\<And>j. SetToken j \<notin> set ?post"
      by (auto dest: after_receive_events)
    from assms(2) have j: "jwt = ?j" by (simp add: tr pre post)
    have np: "\<not> precedes Shutdown (SetToken ?j) ?pre" "\<not> precedes Shutdown (SetToken ?j) ?post"
      "\<not> precedes (SetToken ?j) Shutdown ?pre"
      using pre post by (auto dest: precedes_mem)
    have "count_list ?pre Shutdown = 0" "count_list ?post Shutdown = 0"
      using pre post by (simp_all add: count_list_0_iff)
    then show ?thesis
      by (simp add: tr j precedes_append pre post np)
  qed
qed (use assms(2) in \<open>auto dest: early_trace_events isJwtTokenValid_events\<close>)

text \<open>The example run satisfies the hypotheses of the theorem for C1.\<close>

theorem login_persist_before_shutdown_witness:
  "snd (login example_env) = Return None
   \<and> SetToken ''abc123'' \<in> set (fst (login example_env))
   \<and> precedes (SetToken ''abc123'') Shutdown (fst (login example_env))
   \<and> \<not> precedes Shutdown (SetToken ''abc123'') (fst (login example_env))
   \<and> count_list (fst (login example_env)) Shutdown = 1"
proof -
  have r: "snd (login example_env) = Return None"
    and m: "SetToken ''abc123'' \<in> set (fst (login example_env))"
    by (simp_all add: login_example)
  from login_persist_before_shutdown [OF r m] r m show ?thesis by blast
qed

text \<open>
  Claim C1 as stated, shutdown before the write, fails: the example run returns, writes
  the credential and shuts the server down, and no shutdown comes before the write.
\<close>

theorem shutdown_before_persist_counterexample:
  "snd (login example_env) = Return None
   \<and> SetToken ''abc123'' \<in> set (fst (login example_env))
   \<and> Shutdown \<in> set (fst (login example_env))
   \<and> \<not> precedes Shutdown (SetToken ''abc123'') (fst (login example_env))"
  by (simp add: login_example)

section \<open>Shutdown on the exit paths\<close>

text \<open>
  Claim C2 (on every exit path after the callback server has been started the server is
  shut down exactly once) at a host that does not parse: \<open>runServer\<close> has started the
  server, \<open>beginAuth\<close> fails, and \<open>login\<close> returns the error without a shutdown.
\<close>

theorem login_leaves_server_running:
  "login bad_host_env =
     ([ReadSettings, Println ''Waiting for authentication...'', NetListen, GoServe 43210],
      Return (Some (Wrapf ''internal error. Cannot initiate auth flow: ''
        (Wrapf ''error parsing auth URL: '' (Opaque ''missing protocol scheme'')))))
   \<and> GoServe 43210 \<in> set (fst (login bad_host_env))
   \<and> count_list (fst (login bad_host_env)) Shutdown = 0"
  by (simp add: bad_host_env_def eval_defs)

text \<open>On the other paths that return after the server was started there is one shutdown.\<close>

lemma login_shutdown_count:
  assumes "snd (login env) = Return r" and "GoServe port \<in> set (fst (login env))"
  shows "count_list (fst (login env)) Shutdown =
           (case host_url env of Inl err \<Rightarrow> 0 | Inr u \<Rightarrow> 1)"
proof (cases env rule: login_paths)
  case (HostFail token port' err)
  have "Shutdown \<notin> set (early_trace env token)"
    by (auto dest: early_trace_events)
  with HostFail show ?thesis by (simp add: count_list_0_iff)
next
  case (Callback token port')
  then obtain u where u: "host_url env = Inr u"
    by (auto simp: reaches_receive_def)
  show ?thesis
  proof (cases "callbacks env")
    case Nil
    with Callback assms(1) show ?thesis by (simp add: login_waiting_trace)
  next
    case (Cons req rs)
    have "count_list (await_trace env token port') Shutdown = 0"
      "count_list (fst (after_receive env (values_Get (Query req) ''jwt''))) Shutdown = 0"
      by (auto simp: count_list_0_iff dest: await_trace_events after_receive_events)
    then show ?thesis
      by (simp add: login_callback_trace [OF Callback Cons] u)
  qed
qed (use assms(2) in \<open>auto dest: early_trace_events isJwtTokenValid_events\<close>)

section \<open>A failed write of the token\<close>

text \<open>
  Claim C3 (a failed write of the token is fatal to \<open>login\<close> and to \<open>logout\<close>) at a
  stored token and settings that cannot be written: \<open>logout\<close> calls
  \<open>settings.SetToken("")\<close>, drops its error, prints \<open>Logged out.\<close> and returns \<open>nil\<close>.
\<close>

theorem logout_ignores_write_error:
  "set_token readonly_env [] = Some (Opaque ''permission denied'')
   \<and> logout readonly_env = ([ReadSettings, SetToken [], Println ''Logged out.''], Return None)"
  by (simp add: readonly_env_def eval_defs)

text \<open>\<open>login\<close> does return the error of the write (when the shutdown returns).\<close>

lemma login_write_error_fatal:
  assumes "SetToken jwt \<in> set (fst (login env))" and "set_token env jwt = Some e"
  shows "snd (login env) = Hang \<or>
         snd (login env) = Return (Some (Wrapf ''error persisting token on local config: '' e))"
proof (cases env rule: login_paths)
  case (Callback token port)
  show ?thesis
  proof (cases "callbacks env")
    case Nil
    with Callback show ?thesis by (simp add: login_waiting_trace)
  next
    case (Cons req rs)
    let ?j = "values_Get (Query req) ''jwt''"
    have "\<And>j. SetToken j \<notin> set (await_trace env token port)"
      "\<And>j. SetToken j \<notin> set (fst (after_receive env ?j))"
      by (auto dest: await_trace_events after_receive_events)
    with assms(1) have "jwt = ?j"
      by (simp add: login_callback_trace [OF Callback Cons])
    with assms(2) show ?thesis
      by (simp add: login_callback_trace [OF Callback Cons] after_receive_def)
  qed
qed (use assms(1) in \<open>auto dest: early_trace_events isJwtTokenValid_events\<close>)

section \<open>A stored token that is still valid\<close>

text \<open>
  Claim C4: when the stored credential is not empty and the validation request answers
  with status 200, \<open>login\<close> returns success after reading the settings, the validation
  request and one message; it binds no port, starts no server and opens no browser.
\<close>

theorem login_short_circuit:
  assumes "read_settings env = Inr token" and "token \<noteq> []"
    and "validate_token env = Inr resp" and "StatusCode resp = 200"
  shows "login env =
           ([ReadSettings, HttpGet Authenticated ''/v2/validate/token'',
             Println (check_mark @ ''  Success! Existing JWT still valid'')], Return None)
         \<and> NetListen \<notin> set (fst (login env))
         \<and> (\<forall>port. GoServe port \<notin> set (fst (login env)))
         \<and> (\<forall>u. OpenURL u \<notin> set (fst (login env)))"
  using assms by (simp add: login_def isJwtTokenValid_def)

text \<open>A stored token the API accepts satisfies the hypotheses of the theorem for C4.\<close>

theorem login_short_circuit_witness:
  "read_settings logged_in_env = Inr ''abc123'' \<and> ''abc123'' \<noteq> []
   \<and> validate_token logged_in_env = Inr \<lparr>StatusCode = 200, Status = ''200 OK'', Body = Inr []\<rparr>
   \<and> login logged_in_env =
           ([ReadSettings, HttpGet Authenticated ''/v2/validate/token'',
             Println (check_mark @ ''  Success! Existing JWT still valid'')], Return None)
   \<and> NetListen \<notin> set (fst (login logged_in_env))
   \<and> (\<forall>port. GoServe port \<notin> set (fst (login logged_in_env)))
   \<and> (\<forall>u. OpenURL u \<notin> set (fst (login logged_in_env)))"
proof -
  have a: "read_settings logged_in_env = Inr ''abc123''"
    and b: "''abc123'' \<noteq> []"
    and c: "validate_token logged_in_env =
              Inr \<lparr>StatusCode = 200, Status = ''200 OK'', Body = Inr []\<rparr>"
    and d: "StatusCode \<lparr>StatusCode = 200, Status = ''200 OK'', Body = Inr []\<rparr> = 200"
    by (simp_all add: logged_in_env_def example_env_def)
  from login_short_circuit [OF a b c d] a b c show ?thesis by blast
qed

section \<open>Failures of the version probe\<close>

text \<open>
  Claim C5: when the version probe fails (the request fails, the status is not 200, the
  body cannot be read, the body is not JSON, or the \<open>latest\<close> field is empty: every way
  \<open>fetchLatestVersion\<close> has to fail), \<open>fetchLatestVersion\<close> returns an error and the
  goroutine sends the running \<open>version\<close> on the version channel. So the only version
  \<open>login\<close> can receive is the running one, no line of the upgrade notice is in its
  trace, all it prints are its own three messages and the URL to open, and its outcome
  is the one it has for any other answer of the probe.
\<close>

theorem version_probe_failure_absorbed:
  assumes "(\<exists>e. releases_latest env = Inl e)
           \<or> (\<exists>resp. releases_latest env = Inr resp \<and> StatusCode resp \<noteq> 200)
           \<or> (\<exists>resp e. releases_latest env = Inr resp \<and> Body resp = Inl e)
           \<or> (\<exists>resp body e. releases_latest env = Inr resp \<and> Body resp = Inr body
                 \<and> json_latest env body = Inl e)
           \<or> (\<exists>resp body. releases_latest env = Inr resp \<and> Body resp = Inr body
                 \<and> json_latest env body = Inr [])"
  shows "(\<exists>e. snd (fetchLatestVersion env) = Inl e)
         \<and> snd (version_goroutine env) = version env
         \<and> (\<forall>v. RecvVersion v \<in> set (fst (login env)) \<longrightarrow> v = version env)
         \<and> (\<forall>v. \<forall>e \<in> set (upgrade_notice env v). e \<notin> set (fst (login env)))
         \<and> (\<forall>s. Println s \<in> set (fst (login env)) \<longrightarrow>
               s = check_mark @ ''  Success! Existing JWT still valid''
               \<or> s = ''Waiting for authentication...'' \<or> s = check_mark @ ''  Success!'')
         \<and> (\<forall>s. Printf s \<in> set (fst (login env)) \<longrightarrow>
               (\<exists>u. s = ''Please open the following URL to login: '' @ emph env u @ nl))
         \<and> (\<forall>rl jl. snd (login (env\<lparr>releases_latest := rl, json_latest := jl\<rparr>))
                      = snd (login env))"
proof -
  from assms have f: "\<exists>e. snd (fetchLatestVersion env) = Inl e"
    by (simp only: fetchLatestVersion_error_iff)
  then have g: "snd (version_goroutine env) = version env"
    by (auto simp add: version_goroutine_def split: prod.split sum.split)
  have a: "fst (after_receive env jwt) = [] \<or>
           fst (after_receive env jwt) =
             [RecvVersion (version env), Println (check_mark @ ''  Success!'')]" for jwt
    by (simp add: after_receive_def g split: option.split)
  have n: "e \<notin> set (fst (after_receive env jwt))" if "e \<in> set (upgrade_notice env v)" for e v jwt
    using that a [of jwt] by (auto simp add: upgrade_notice_def)
  have tr: "(\<forall>v. RecvVersion v \<in> set (fst (login env)) \<longrightarrow> v = version env)
            \<and> (\<forall>v. \<forall>e \<in> set (upgrade_notice env v). e \<notin> set (fst (login env)))"
  proof (cases env rule: login_paths)
    case (Callback token port)
    show ?thesis
    proof (cases "callbacks env")
      case Nil
      with Callback show ?thesis
        by (auto simp add: login_waiting_trace upgrade_notice_not_await dest: await_trace_events)
    next
      case (Cons req rs)
      have "\<And>v. RecvVersion v \<notin> set (await_trace env token port)"
        by (auto dest: await_trace_events)
      moreover have "\<And>v e. e \<in> set (upgrade_notice env v) \<Longrightarrow>
          e \<noteq> RecvJwt (values_Get (Query req) ''jwt'')
          \<and> e \<noteq> SetToken (values_Get (Query req) ''jwt'') \<and> e \<noteq> Shutdown"
        by (auto simp add: upgrade_notice_def)
      ultimately show ?thesis
        using a [of "values_Get (Query req) ''jwt''"] n upgrade_notice_not_await
        by (auto simp add: login_callback_trace [OF Callback Cons])
    qed
  qed (auto simp add: upgrade_notice_def check_mark_def nl_def
        dest!: early_trace_events isJwtTokenValid_events)
  have pl: "s = check_mark @ ''  Success! Existing JWT still valid''
            \<or> s = ''Waiting for authentication...'' \<or> s = check_mark @ ''  Success!''"
    if "Println s \<in> set (fst (login env))" for s
  proof (cases env rule: login_paths)
    case (Callback token port)
    show ?thesis
    proof (cases "callbacks env")
      case Nil
      with Callback that show ?thesis
        by (auto simp add: login_waiting_trace dest: await_trace_Println)
    next
      case (Cons req rs)
      with that a [of "values_Get (Query req) ''jwt''"] show ?thesis
        by (auto simp add: login_callback_trace [OF Callback Cons] dest: await_trace_Println)
    qed
  qed (use that in \<open>auto dest: early_trace_events isJwtTokenValid_events\<close>)
  have pf: "\<exists>u. s = ''Please open the following URL to login: '' @ emph env u @ nl"
    if "Printf s \<in> set (fst (login env))" for s
  proof (cases env rule: login_paths)
    case (Callback token port)
    have "Printf s \<in> set (await_trace env token port)"
    proof (cases "callbacks env")
      case Nil
      with Callback that show ?thesis
        by (simp add: login_waiting_trace)
    next
      case (Cons req rs)
      with that a [of "values_Get (Query req) ''jwt''"] show ?thesis
        by (auto simp add: login_callback_trace [OF Callback Cons])
    qed
    then show ?thesis by (rule await_trace_Printf)
  qed (use that in \<open>auto dest: early_trace_events isJwtTokenValid_events\<close>)
  from f g tr pl pf login_probe_independent show ?thesis by blast
qed

text \<open>Each of the five failures of C5 occurs, and gives the running version; the run of
  \<open>login\<close> is then the example run, which prints no notice and returns \<open>nil\<close>.\<close>

theorem version_probe_failure_absorbed_witness:
  "releases_latest offline_env = Inl (Opaque ''no route to host'')
   \<and> snd (version_goroutine offline_env) = ''v0.5.0''
   \<and> (\<exists>resp. releases_latest unavailable_env = Inr resp \<and> StatusCode resp = 503)
   \<and> snd (version_goroutine unavailable_env) = ''v0.5.0''
   \<and> (\<exists>resp. releases_latest unreadable_env = Inr resp
         \<and> Body resp = Inl (Opaque ''unexpected EOF''))
   \<and> snd (version_goroutine unreadable_env) = ''v0.5.0''
   \<and> login unreadable_env = login example_env
   \<and> (\<exists>resp. releases_latest malformed_env = Inr resp \<and> Body resp = Inr ''<html>''
         \<and> json_latest malformed_env ''<html>'' = Inl (Opaque ''invalid character''))
   \<and> snd (version_goroutine malformed_env) = ''v0.5.0''
   \<and> (\<exists>resp. releases_latest empty_latest_env = Inr resp \<and> Body resp = Inr (json_body [])
         \<and> json_latest empty_latest_env (json_body []) = Inr [])
   \<and> snd (version_goroutine empty_latest_env) = ''v0.5.0''"
proof -
  have a: "releases_latest offline_env = Inl (Opaque ''no route to host'')"
    and av: "version offline_env = ''v0.5.0''"
    by (simp_all add: offline_env_def example_env_def)
  have b: "\<exists>resp. releases_latest unavailable_env = Inr resp \<and> StatusCode resp = 503"
    and bv: "version unavailable_env = ''v0.5.0''"
    by (simp_all add: unavailable_env_def example_env_def)
  have u: "\<exists>resp. releases_latest unreadable_env = Inr resp
         \<and> Body resp = Inl (Opaque ''unexpected EOF'')"
    and uv: "version unreadable_env = ''v0.5.0''"
    by (simp_all add: unreadable_env_def example_env_def)
  have c: "\<exists>resp. releases_latest malformed_env = Inr resp \<and> Body resp = Inr ''<html>''
         \<and> json_latest malformed_env ''<html>'' = Inl (Opaque ''invalid character'')"
    and cv: "version malformed_env = ''v0.5.0''"
    by (simp_all add: malformed_env_def example_env_def json_body_def)
  have d: "\<exists>resp. releases_latest empty_latest_env = Inr resp \<and> Body resp = Inr (json_body [])
         \<and> json_latest empty_latest_env (json_body []) = Inr []"
    and dv: "version empty_latest_env = ''v0.5.0''"
    by (simp_all add: empty_latest_env_def example_env_def json_body_def)
  have l: "login unreadable_env = login example_env"
    by (simp add: login_example) (simp add: unreadable_env_def eval_defs)
  have "snd (version_goroutine offline_env) = version offline_env"
    using version_probe_failure_absorbed [of offline_env] a by blast
  moreover have "snd (version_goroutine unavailable_env) = version unavailable_env"
    using version_probe_failure_absorbed [of unavailable_env] b by fastforce
  moreover have "snd (version_goroutine unreadable_env) = version unreadable_env"
    using version_probe_failure_absorbed [of unreadable_env] u by blast
  moreover have "snd (version_goroutine malformed_env) = version malformed_env"
    using version_probe_failure_absorbed [of malformed_env] c by blast
  moreover have "snd (version_goroutine empty_latest_env) = version empty_latest_env"
    using version_probe_failure_absorbed [of empty_latest_env] d by blast
  ultimately show ?thesis using a b u c d l by (simp add: av bv uv cv dv)
qed

section \<open>Delivery of the credential\<close>

text \<open>
  Claim C6, as the code has it. In every state the callback server and \<open>login\<close> reach,
  whatever the number of requests: \<open>login\<close> has received at most one value, and once it
  is past the receive exactly one, the first that was sent; as long as nothing has been
  sent, no handler that has a step to take is blocked (the first send finds the buffer
  of capacity 1 empty); no handler has panicked; and with at most two requests there is
  no deadlock.
\<close>

theorem callback_delivery:
  assumes "run sched init_sys = Some s"
  shows "length (delivered s) \<le> 1
         \<and> (orch s \<noteq> Receiving \<longrightarrow> delivered s = take 1 (sent s) \<and> length (delivered s) = 1)
         \<and> \<not> panicked s
         \<and> (sent s = [] \<longrightarrow>
              (\<forall>i < length (handlers s). handlers s ! i \<noteq> [] \<longrightarrow> handler_step i s \<noteq> None))
         \<and> (length (handlers s) \<le> 2 \<longrightarrow> \<not> deadlock s)"
proof -
  note inv = reachable_inv [OF assms]
  have a: "length (delivered s) \<le> 1"
    using inv by (cases "orch s") (simp_all add: chan_inv_def)
  have b: "delivered s = take 1 (sent s) \<and> length (delivered s) = 1" if "orch s \<noteq> Receiving"
    using inv that by (cases "orch s") (simp_all add: chan_inv_def)
  have c: "\<forall>i < length (handlers s). handlers s ! i \<noteq> [] \<longrightarrow> handler_step i s \<noteq> None"
    if "sent s = []"
    using first_send_free [OF inv that] by fastforce
  have d: "\<not> deadlock s" if "length (handlers s) \<le> 2"
    using deadlock_three_hits [OF inv] that by fastforce
  have e: "\<not> panicked s"
    using inv unfolding chan_inv_def by blast
  from a b c d e show ?thesis by blast
qed

text \<open>
  One request that has arrived can send at once; two requests are served to the end
  and \<open>login\<close> leaves \<open>server.Shutdown\<close> with the first value.
\<close>

theorem callback_delivery_witness:
  "run one_hit init_sys = Some after_one_hit
   \<and> sent after_one_hit = [] \<and> handler_step 0 after_one_hit \<noteq> None
   \<and> run two_hits init_sys = Some after_two_hits
   \<and> orch after_two_hits = Finished ''abc123''
   \<and> delivered after_two_hits = take 1 (sent after_two_hits)
   \<and> length (delivered after_two_hits) = 1
   \<and> length (handlers after_two_hits) = 2
   \<and> \<not> deadlock after_two_hits \<and> \<not> panicked after_two_hits"
proof -
  have one: "sent after_one_hit = []" "0 < length (handlers after_one_hit)"
    "handlers after_one_hit ! 0 \<noteq> []"
    by (simp_all add: after_one_hit_def)
  have two: "orch after_two_hits = Finished ''abc123''" "length (handlers after_two_hits) = 2"
    by (simp_all add: after_two_hits_def)
  have past: "orch after_two_hits \<noteq> Receiving" "length (handlers after_two_hits) \<le> 2"
    by (simp_all add: two)
  from callback_delivery [OF run_one_hit] one
  have first: "handler_step 0 after_one_hit \<noteq> None" by blast
  from callback_delivery [OF run_two_hits] past
  have second: "delivered after_two_hits = take 1 (sent after_two_hits)"
    "length (delivered after_two_hits) = 1" "\<not> deadlock after_two_hits"
    "\<not> panicked after_two_hits"
    by blast+
  from first second run_one_hit run_two_hits one two show ?thesis by simp
qed

text \<open>
  Claim C6 as stated (further hits do not deadlock the server) fails at three requests
  that arrive before the listener is closed: the first value goes to \<open>login\<close>, the
  second fills the buffer, the third handler waits at its send for a receive that never
  comes, and \<open>login\<close> waits inside \<open>server.Shutdown\<close> for that handler.
\<close>

theorem third_hit_deadlocks:
  "run three_hits init_sys = Some after_three_hits \<and> deadlock after_three_hits"
  by (simp add: run_three_hits)
     (simp add: after_three_hits_def sys_defs deadlock_def stuck_def upt_rec)

text \<open>
  From that state on, under every schedule, the third handler cannot take its step and
  \<open>login\<close> does not leave \<open>server.Shutdown\<close>.
\<close>

lemma third_hit_stranded: "stranded 2 after_three_hits"
  by (simp add: stranded_def after_three_hits_def ch_cap_def)

lemma third_hit_never_served:
  assumes "run sched after_three_hits = Some s"
  shows "handler_step 2 s = None \<and> orch s \<noteq> Finished ''abc123''"
proof -
  from third_hit_stranded assms have "stranded 2 s" by (rule stranded_run)
  then show ?thesis
    by (auto simp add: stranded_blocked stranded_def)
qed

section \<open>A callback without a token\<close>



section \<open>A browser that cannot be opened\<close>

text \<open>
  Claim C8: for every port, when the host parses and \<open>browser.OpenURL\<close> fails on the
  composed URL, \<open>beginAuth\<close> prints that URL and returns \<open>nil\<close>; in \<open>login\<close>, with that
  port bound, the message is printed, the run goes on to wait for the callback, and the
  outcome is never the error of the auth flow.
\<close>

theorem beginAuth_open_failure_swallowed:
  assumes "host_url env = Inr u" and "open_url env (url_String (auth_url u port)) = Some e"
  shows "beginAuth env port =
           ([OpenURL (url_String (auth_url u port)),
             Printf (''Please open the following URL to login: ''
                     @ emph env (url_String (auth_url u port)) @ nl)], None)
         \<and> (net_listen env = Inr port \<and> NetListen \<in> set (fst (login env)) \<longrightarrow>
              GoVersionProbe \<in> set (fst (login env))
              \<and> Printf (''Please open the following URL to login: ''
                     @ emph env (url_String (auth_url u port)) @ nl) \<in> set (fst (login env))
              \<and> (\<forall>x. snd (login env) \<noteq>
                    Return (Some (Wrapf ''internal error. Cannot initiate auth flow: '' x))))"
proof -
  let ?p = "Printf (''Please open the following URL to login: ''
                     @ emph env (url_String (auth_url u port)) @ nl)"
  have b: "beginAuth env port = ([OpenURL (url_String (auth_url u port)), ?p], None)"
    using assms by (simp add: beginAuth_def Let_def)
  have "GoVersionProbe \<in> set (fst (login env)) \<and> ?p \<in> set (fst (login env))
        \<and> (\<forall>x. snd (login env) \<noteq>
              Return (Some (Wrapf ''internal error. Cannot initiate auth flow: '' x)))"
    if l: "net_listen env = Inr port" and n: "NetListen \<in> set (fst (login env))"
  proof (cases env rule: login_paths)
    case (Callback token port')
    with l have r: "reaches_receive env token port"
      by (simp add: reaches_receive_def)
    then have g: "GoVersionProbe \<in> set (fst (login env))"
      using login_reaches_receive_iff by blast
    have "?p \<in> set (await_trace env token port)"
      by (simp add: await_trace_def b)
    then have "?p \<in> set (fst (login env))"
      using login_callback_path [OF r] by (cases "callbacks env") (simp_all add: Let_def)
    with g login_not_auth_flow_error [OF g] show ?thesis by blast
  qed (use n l assms(1) in \<open>auto dest: early_trace_events isJwtTokenValid_events\<close>)
  with b show ?thesis by blast
qed

text \<open>A machine without a browser, for C8.\<close>

theorem beginAuth_open_failure_swallowed_witness:
  "host_url headless_env = Inr \<lparr>Base = ''https://api.turso.io'', RawQuery = [], Fragment = []\<rparr>
   \<and> open_url headless_env ''https://api.turso.io?port=43210&redirect=true''
       = Some (Opaque ''exec: xdg-open not found'')
   \<and> net_listen headless_env = Inr 43210
   \<and> NetListen \<in> set (fst (login headless_env))
   \<and> beginAuth headless_env 43210 =
        ([OpenURL ''https://api.turso.io?port=43210&redirect=true'',
          Printf (''Please open the following URL to login: ''
                  @ ''https://api.turso.io?port=43210&redirect=true'' @ nl)], None)
   \<and> GoVersionProbe \<in> set (fst (login headless_env))
   \<and> snd (login headless_env) = Return None"
proof -
  let ?u = "\<lparr>Base = ''https://api.turso.io'', RawQuery = [], Fragment = []\<rparr>"
  have s: "url_String (auth_url ?u 43210) = ''https://api.turso.io?port=43210&redirect=true''"
    by (simp add: url_String_def auth_url_def Itoa_def utoa.simps)
  have h: "host_url headless_env = Inr ?u"
    and o: "open_url headless_env (url_String (auth_url ?u 43210))
              = Some (Opaque ''exec: xdg-open not found'')"
    and l: "net_listen headless_env = Inr 43210"
    and e: "emph headless_env = (\<lambda>s. s)"
    by (simp_all add: headless_env_def example_env_def)
  have n: "NetListen \<in> set (fst (login headless_env))"
    and r: "snd (login headless_env) = Return None"
    by (simp_all add: login_headless)
  from beginAuth_open_failure_swallowed [OF h o] l n
  have "beginAuth headless_env 43210 =
           ([OpenURL (url_String (auth_url ?u 43210)),
             Printf (''Please open the following URL to login: ''
                     @ emph headless_env (url_String (auth_url ?u 43210)) @ nl)], None)"
    and "GoVersionProbe \<in> set (fst (login headless_env))"
    by blast+
  with h o l n r show ?thesis by (simp add: s e)
qed

section \<open>The received credential is stored as it is\<close>

text \<open>
  Claim C9: when \<open>login\<close> receives a credential from the channel, it is the value the
  handler of the first request sent, the next two events are the write of that very
  value and the shutdown, nothing else is ever written, no HTTP request follows, and
  the goroutine's only request is the one for the latest release.
\<close>

theorem login_persists_verbatim:
  assumes "RecvJwt jwt \<in> set (fst (login env))"
  shows "\<exists>pre post r rs.
           fst (login env) = pre @ [RecvJwt jwt, SetToken jwt, Shutdown] @ post
           \<and> callbacks env = r # rs \<and> sends (handler r) = [jwt]
           \<and> (\<forall>j. SetToken j \<notin> set pre) \<and> (\<forall>j. SetToken j \<notin> set post)
           \<and> (\<forall>c p. HttpGet c p \<notin> set post)
           \<and> fst (version_goroutine env) = [HttpGet Unauthenticated ''/releases/latest'']"
proof (cases env rule: login_paths)
  case (Callback token port)
  show ?thesis
  proof (cases "callbacks env")
    case Nil
    with Callback assms show ?thesis
      by (auto simp add: login_waiting_trace dest: await_trace_events)
  next
    case (Cons req rs)
    let ?j = "values_Get (Query req) ''jwt''"
    let ?pre = "await_trace env token port" and ?post = "fst (after_receive env ?j)"
    have tr: "fst (login env) = ?pre @ [RecvJwt ?j, SetToken ?j, Shutdown] @ ?post"
      by (rule login_callback_trace [OF Callback Cons])
    have pre: "\<And>j. SetToken j \<notin> set ?pre" "\<And>j. RecvJwt j \<notin> set ?pre"
      by (auto dest: await_trace_events)
    have post: "\<And>j. SetToken j \<notin> set ?post" "\<And>j. RecvJwt j \<notin> set ?post"
      "\<And>c p. HttpGet c p \<notin> set ?post"
      by (auto dest: after_receive_events)
    from assms have j: "jwt = ?j" by (simp add: tr pre post)
    show ?thesis
      using tr Cons pre post by (auto simp add: j sends_handler version_goroutine_events)
  qed
qed (use assms in \<open>auto dest: early_trace_events isJwtTokenValid_events\<close>)

text \<open>The example run receives a credential, for C9.\<close>

theorem login_persists_verbatim_witness:
  "RecvJwt ''abc123'' \<in> set (fst (login example_env))
   \<and> (\<exists>pre post r rs.
           fst (login example_env) = pre @ [RecvJwt ''abc123'', SetToken ''abc123'', Shutdown] @ post
           \<and> callbacks example_env = r # rs \<and> sends (handler r) = [''abc123'']
           \<and> (\<forall>j. SetToken j \<notin> set pre) \<and> (\<forall>j. SetToken j \<notin> set post)
           \<and> (\<forall>c p. HttpGet c p \<notin> set post)
           \<and> fst (version_goroutine example_env) = [HttpGet Unauthenticated ''/releases/latest''])"
proof -
  have m: "RecvJwt ''abc123'' \<in> set (fst (login example_env))"
    by (simp add: login_example)
  from login_persists_verbatim [OF m] m show ?thesis by blast
qed

section \<open>The empty token\<close>

text \<open>
  Claim C10: \<open>isJwtTokenValid\<close> is false on the empty string and makes no request; with
  an empty stored token neither \<open>login\<close> (its goroutine included) nor \<open>token\<close> sends a
  request to the validation endpoint, and \<open>token\<close> fails after reading the settings.
\<close>

theorem isJwtTokenValid_empty:
  "isJwtTokenValid env [] = ([], False)
   \<and> (read_settings env = Inr [] \<longrightarrow>
        (\<forall>c. HttpGet c ''/v2/validate/token'' \<notin> set (fst (login env) @ fst (version_goroutine env)))
        \<and> tokenCmd env =
            ([ReadSettings],
             Return (Some (Errorf
               ''no user logged in. Run `turso auth login` to log in and get a token''))))"
proof -
  have v: "isJwtTokenValid env [] = ([], False)"
    by (simp add: isJwtTokenValid_def)
  have "\<forall>c. HttpGet c ''/v2/validate/token'' \<notin> set (fst (login env) @ fst (version_goroutine env))"
    if "read_settings env = Inr []"
    using that login_HttpGet [of _ "''/v2/validate/token''" env]
    by (auto simp add: version_goroutine_events)
  moreover have "tokenCmd env =
      ([ReadSettings],
       Return (Some (Errorf
         ''no user logged in. Run `turso auth login` to log in and get a token'')))"
    if "read_settings env = Inr []"
    using that by (simp add: tokenCmd_def v)
  ultimately show ?thesis using v by blast
qed

text \<open>The example environment has no stored token, for C10.\<close>

theorem isJwtTokenValid_empty_witness:
  "read_settings example_env = Inr []
   \<and> isJwtTokenValid example_env [] = ([], False)
   \<and> (\<forall>c. HttpGet c ''/v2/validate/token''
          \<notin> set (fst (login example_env) @ fst (version_goroutine example_env)))
   \<and> tokenCmd example_env =
        ([ReadSettings],
         Return (Some (Errorf
           ''no user logged in. Run `turso auth login` to log in and get a token'')))"
proof -
  have r: "read_settings example_env = Inr []"
    by (simp add: example_env_def)
  from isJwtTokenValid_empty [of example_env] r show ?thesis by blast
qed

end
